theory Spec2Isabelle
  imports Main "HOL-Library.Word"
begin

section \<open>Data model of dual\_core\_test.c\<close>

type_synonym u32 = "32 word"
type_synonym u64 = "64 word"

text \<open>
  \<^verbatim>\<open>core_message_t\<close>: two 32-bit fields, a 64-bit timestamp and the array
  \<^verbatim>\<open>char data[32]\<close>, kept as the list of its bytes.
\<close>

record core_message_t =
  sender_core :: u32
  message_id :: u32
  timestamp :: u64
  data :: string

text \<open>The four static performance counters, all initialised to 0.\<close>

record globals =
  core0_counter :: u32
  core1_counter :: u32
  core0_total_time :: u64
  core1_total_time :: u64

text \<open>
  What a task does to the outside: semaphore, console, queue and scheduler calls, in
  program order. \<open>QueueSend m t r\<close> is a call \<^verbatim>\<open>xQueueSend(core_queue, &m, t)\<close> that
  returned \<^verbatim>\<open>pdTRUE\<close> iff \<open>r\<close>; \<open>QueueReceive t r\<close> is a call of
  \<^verbatim>\<open>xQueueReceive\<close> with timeout \<open>t\<close> that copied out \<open>r\<close> (or timed out, \<open>None\<close>).
\<close>

datatype event =
    SemaphoreTake
  | SemaphoreGive
  | VPrintf string
  | QueueSend core_message_t u32 bool
  | QueueReceive u32 "core_message_t option"
  | TaskDelay u32
  | TaskDelayUntil u32 u32
  | TaskDelete
  | QueueCreate nat nat
  | SemaphoreCreateMutex
  | TaskCreatePinnedToCore string nat nat nat
  | TaskCreate string nat nat

text \<open>
  The state one task threads through its calls: the globals, how many times it has read
  the clock, sent and received so far, and its events.
\<close>

record state = globals +
  nreads :: nat
  nsends :: nat
  nrecvs :: nat
  events :: "event list"

text \<open>
  Everything the program takes from FreeRTOS and the hardware, as parameters:
  the \<open>k\<close>-th value \<^verbatim>\<open>esp_timer_get_time\<close> returns to the task, the outcome of its \<open>k\<close>-th
  send and receive, the macro \<^verbatim>\<open>pdMS_TO_TICKS\<close>, the tick count when the monitor
  starts, what the monitor reads in its \<open>k\<close>-th cycle (counters written by the other
  tasks, queue occupancy, free heap), the handles returned at start-up (\<open>None\<close> is
  \<^verbatim>\<open>NULL\<close>), whether each task creation returned \<^verbatim>\<open>pdPASS\<close>, and the counters read
  by the final report.
\<close>

record env =
  timer_at :: "nat \<Rightarrow> u64"
  send_result :: "nat \<Rightarrow> bool"
  recv_result :: "nat \<Rightarrow> core_message_t option"
  ms_to_ticks :: "nat \<Rightarrow> u32"
  tick_count :: u32
  counters_at :: "nat \<Rightarrow> globals"
  messages_waiting :: "nat \<Rightarrow> u32"
  free_heap :: "nat \<Rightarrow> u32"
  queue_handle :: "nat option"
  mutex_handle :: "nat option"
  task_created :: "string \<Rightarrow> bool"
  final_counters :: globals

section \<open>Formatting\<close>

fun dec :: "nat \<Rightarrow> string" where
  "dec n = (if n < 10 then [''0123456789'' ! n]
            else dec (n div 10) @ [''0123456789'' ! (n mod 10)])"

declare dec.simps [simp del]

text \<open>\<^verbatim>\<open>%d\<close> on an \<^verbatim>\<open>int\<close>; \<^verbatim>\<open>%lu\<close> and \<^verbatim>\<open>%llu\<close> are \<open>dec\<close> of the unsigned value.\<close>

definition fmt_d :: "int \<Rightarrow> string" where
  "fmt_d i = (if i < 0 then CHR ''-'' # dec (nat (- i)) else dec (nat i))"

definition NUL :: char where
  "NUL = CHR 0x00"

text \<open>The two bytes of the micro sign in UTF-8, as the source file has it.\<close>

definition micro :: string where
  "micro = [CHR 0xCE, CHR 0xBC]"

text \<open>
  \<^verbatim>\<open>snprintf(buf, n, ...)\<close> as C defines it: of the formatted text \<open>s\<close> it stores at most
  \<open>n - 1\<close> bytes and then a NUL, and nothing when \<open>n = 0\<close>. \<open>snprintf_bytes\<close> is what it
  stores, \<open>snprintf\<close> the buffer afterwards (the bytes behind the NUL keep their value).
\<close>

definition snprintf_bytes :: "nat \<Rightarrow> string \<Rightarrow> string" where
  "snprintf_bytes n s = (if n = 0 then [] else take (n - 1) s @ [NUL])"

definition snprintf :: "string \<Rightarrow> nat \<Rightarrow> string \<Rightarrow> string" where
  "snprintf buf n s = (let out = snprintf_bytes n s in out @ drop (length out) buf)"

text \<open>What \<^verbatim>\<open>%s\<close> prints of a buffer: its bytes up to the first NUL.\<close>

definition c_str :: "string \<Rightarrow> string" where
  "c_str buf = takeWhile (\<lambda>c. c \<noteq> NUL) buf"

definition hello_text :: "nat \<Rightarrow> string" where
  "hello_text i = ''Hello from Core 0 #'' @ fmt_d (int i)"

definition sent_text :: "nat \<Rightarrow> string" where
  "sent_text i = ''Core 0: Sent message '' @ fmt_d (int i) @ ''\<newline>''"

definition received_text :: "string \<Rightarrow> u64 \<Rightarrow> string" where
  "received_text payload latency =
     ''Core 1: Received '' @ [CHR 0x27] @ payload @ [CHR 0x27] @ '' (latency: '' @
     dec (unat latency) @ '' '' @ micro @ ''s)\<newline>''"

definition completed_text :: "nat \<Rightarrow> u64 \<Rightarrow> string" where
  "completed_text core ms =
     ''Core '' @ dec core @ '' Task Completed in '' @ dec (unat ms) @ '' ms\<newline>''"

definition monitor_header :: "int \<Rightarrow> string" where
  "monitor_header n =
     ''\<newline>=== Performance Monitor (Second '' @ fmt_d n @ '') ===\<newline>''"

definition iterations_text :: "nat \<Rightarrow> u32 \<Rightarrow> u64 \<Rightarrow> string" where
  "iterations_text core counter avg =
     ''Core '' @ dec core @ '' iterations: '' @ dec (unat counter) @ '' (avg: '' @
     dec (unat avg) @ '' '' @ micro @ ''s)\<newline>''"

definition waiting_text :: "u32 \<Rightarrow> string" where
  "waiting_text n = ''Queue messages waiting: '' @ fmt_d (sint n) @ ''\<newline>''"

definition heap_text :: "u32 \<Rightarrow> string" where
  "heap_text n = ''Free heap: '' @ fmt_d (sint n) @ '' bytes\<newline>''"

definition total_text :: "nat \<Rightarrow> u32 \<Rightarrow> string" where
  "total_text core counter =
     ''Core '' @ dec core @ '' total iterations: '' @ dec (unat counter) @ ''\<newline>''"

definition average_text :: "nat \<Rightarrow> u64 \<Rightarrow> string" where
  "average_text core avg =
     ''Core '' @ dec core @ '' average time per iteration: '' @ dec (unat avg) @
     '' '' @ micro @ ''s\<newline>''"

section \<open>The calls a task makes\<close>

text \<open>
  \<^verbatim>\<open>safe_printf\<close>: take \<^verbatim>\<open>print_mutex\<close> (waiting \<^verbatim>\<open>portMAX_DELAY\<close>), \<^verbatim>\<open>vprintf\<close>,
  give the mutex back. The argument is the formatted text.
\<close>

definition safe_printf :: "string \<Rightarrow> 'a state_scheme \<Rightarrow> 'a state_scheme" where
  "safe_printf s st = st\<lparr>events := events st @ [SemaphoreTake, VPrintf s, SemaphoreGive]\<rparr>"

definition esp_timer_get_time :: "env \<Rightarrow> 'a state_scheme \<Rightarrow> u64 \<times> 'a state_scheme" where
  "esp_timer_get_time e st = (timer_at e (nreads st), st\<lparr>nreads := nreads st + 1\<rparr>)"

definition xQueueSend ::
  "env \<Rightarrow> core_message_t \<Rightarrow> u32 \<Rightarrow> 'a state_scheme \<Rightarrow> bool \<times> 'a state_scheme" where
  "xQueueSend e m ticks st =
     (let r = send_result e (nsends st)
      in (r, st\<lparr>nsends := nsends st + 1, events := events st @ [QueueSend m ticks r]\<rparr>))"

definition xQueueReceive ::
  "env \<Rightarrow> u32 \<Rightarrow> 'a state_scheme \<Rightarrow> core_message_t option \<times> 'a state_scheme" where
  "xQueueReceive e ticks st =
     (let r = recv_result e (nrecvs st)
      in (r, st\<lparr>nrecvs := nrecvs st + 1, events := events st @ [QueueReceive ticks r]\<rparr>))"

definition vTaskDelay :: "u32 \<Rightarrow> 'a state_scheme \<Rightarrow> 'a state_scheme" where
  "vTaskDelay ticks st = st\<lparr>events := events st @ [TaskDelay ticks]\<rparr>"

definition vTaskDelete :: "'a state_scheme \<Rightarrow> 'a state_scheme" where
  "vTaskDelete st = st\<lparr>events := events st @ [TaskDelete]\<rparr>"

text \<open>
  Modelled from the spec: \<^verbatim>\<open>vTaskDelayUntil(&last_wake_time, increment)\<close> is FreeRTOS
  code, not in the repository. The spec calls it an absolute-deadline wake on a fixed
  period: the task sleeps until \<open>last_wake_time + increment\<close> and that deadline becomes
  the new \<open>last_wake_time\<close> (tick counts wrap at 32 bits). The event records the wake
  time passed in and the increment.
\<close>

definition vTaskDelayUntil :: "u32 \<Rightarrow> u32 \<Rightarrow> 'a state_scheme \<Rightarrow> u32 \<times> 'a state_scheme" where
  "vTaskDelayUntil last_wake_time increment st =
     (last_wake_time + increment,
      st\<lparr>events := events st @ [TaskDelayUntil last_wake_time increment]\<rparr>)"

section \<open>Worker A: core0\_task\<close>

text \<open>
  One pass of the loop body with index \<open>i\<close> (an \<^verbatim>\<open>int\<close> that only takes the values
  0..100, so a \<open>nat\<close> here). The checksum loop writes a local that is never read and is
  left out. \<open>message\<close> is the task's local struct: it keeps its bytes between passes.
\<close>

fun core0_iter :: "env \<Rightarrow> nat \<Rightarrow> core_message_t \<times> state \<Rightarrow> core_message_t \<times> state" where
  "core0_iter e i (message, st) =
     (let (iteration_start, st) = esp_timer_get_time e st;
          (message, st) =
            (if i mod 10 = 0 then
               let message = message\<lparr>sender_core := 0\<rparr>;
                   message = message\<lparr>message_id := of_nat i\<rparr>;
                   (now, st) = esp_timer_get_time e st;
                   message = message\<lparr>timestamp := now\<rparr>;
                   message = message\<lparr>data := snprintf (data message) 32 (hello_text i)\<rparr>;
                   (sent, st) = xQueueSend e message (ms_to_ticks e 100) st
               in (message, if sent then safe_printf (sent_text i) st else st)
             else (message, st));
          st = st\<lparr>core0_counter := core0_counter st + 1\<rparr>;
          (now, st) = esp_timer_get_time e st;
          iteration_time = now - iteration_start;
          st = st\<lparr>core0_total_time := core0_total_time st + iteration_time\<rparr>
      in (message, vTaskDelay (ms_to_ticks e 50) st))"

declare core0_iter.simps [simp del]

function core0_loop :: "env \<Rightarrow> nat \<Rightarrow> core_message_t \<times> state \<Rightarrow> core_message_t \<times> state" where
  "core0_loop e i ms = (if i < 100 then core0_loop e (Suc i) (core0_iter e i ms) else ms)"
  by pat_completeness auto
termination
  by (relation "measure (\<lambda>(e, i, ms). 100 - i)") auto

declare core0_loop.simps [simp del]

definition core0_task :: "env \<Rightarrow> core_message_t \<Rightarrow> state \<Rightarrow> state" where
  "core0_task e message st =
     (let (task_start, st) = esp_timer_get_time e st;
          st = safe_printf ''Core 0 Task Started (PRO_CPU)\<newline>'' st;
          (message, st) = core0_loop e 0 (message, st);
          (task_end, st) = esp_timer_get_time e st;
          st = safe_printf (completed_text 0 ((task_end - task_start) div 1000)) st
      in vTaskDelete st)"

section \<open>Worker B: core1\_task\<close>

text \<open>
  The square-root loop only writes a local \<^verbatim>\<open>float\<close> that is never read and is left
  out. A successful receive overwrites the local \<open>received_message\<close>.
\<close>

fun core1_iter :: "env \<Rightarrow> nat \<Rightarrow> core_message_t \<times> state \<Rightarrow> core_message_t \<times> state" where
  "core1_iter e i (received_message, st) =
     (let (iteration_start, st) = esp_timer_get_time e st;
          (res, st) = xQueueReceive e (ms_to_ticks e 10) st;
          (received_message, st) =
            (case res of
               Some m \<Rightarrow>
                 let (now, st) = esp_timer_get_time e st;
                     latency = now - timestamp m
                 in (m, safe_printf (received_text (c_str (data m)) latency) st)
             | None \<Rightarrow> (received_message, st));
          st = st\<lparr>core1_counter := core1_counter st + 1\<rparr>;
          (now, st) = esp_timer_get_time e st;
          iteration_time = now - iteration_start;
          st = st\<lparr>core1_total_time := core1_total_time st + iteration_time\<rparr>
      in (received_message, vTaskDelay (ms_to_ticks e 30) st))"

declare core1_iter.simps [simp del]

function core1_loop :: "env \<Rightarrow> nat \<Rightarrow> core_message_t \<times> state \<Rightarrow> core_message_t \<times> state" where
  "core1_loop e i ms = (if i < 150 then core1_loop e (Suc i) (core1_iter e i ms) else ms)"
  by pat_completeness auto
termination
  by (relation "measure (\<lambda>(e, i, ms). 150 - i)") auto

declare core1_loop.simps [simp del]

definition core1_task :: "env \<Rightarrow> core_message_t \<Rightarrow> state \<Rightarrow> state" where
  "core1_task e received_message st =
     (let (task_start, st) = esp_timer_get_time e st;
          st = safe_printf ''Core 1 Task Started (APP_CPU)\<newline>'' st;
          (received_message, st) = core1_loop e 0 (received_message, st);
          (task_end, st) = esp_timer_get_time e st;
          st = safe_printf (completed_text 1 ((task_end - task_start) div 1000)) st
      in vTaskDelete st)"

section \<open>Averages, the monitor and app\_main\<close>

text \<open>Unsigned 64-bit division traps on a zero divisor: \<open>None\<close>.\<close>

definition udiv64 :: "u64 \<Rightarrow> u64 \<Rightarrow> u64 option" where
  "udiv64 a b = (if b = 0 then None else Some (a div b))"

text \<open>
  \<^verbatim>\<open>counter > 0 ? total_time / counter : 0\<close>, the expression of the monitor and of the
  final report; the 32-bit counter is widened to 64 bits for the division. The counter
  is one value here: the test and the division see the same count. (The counters are
  \<^verbatim>\<open>volatile\<close> and written by another task, so the code loads the counter once for
  the test and once for the division; a counter only grows from 0 to at most 150, so the
  second load cannot be 0 after the first was positive.)
\<close>

definition avg_time :: "u32 \<Rightarrow> u64 \<Rightarrow> u64 option" where
  "avg_time counter total_time =
     (if counter > 0 then udiv64 total_time (ucast counter) else Some 0)"

text \<open>
  The five lines of cycle \<open>i\<close>. The counters are the other tasks' and change under the
  monitor: \<open>counters_at e i\<close> is what this cycle reads.
\<close>

definition monitor_report :: "env \<Rightarrow> nat \<Rightarrow> state \<Rightarrow> state option" where
  "monitor_report e i st =
     (let g = counters_at e i;
          st = safe_printf (monitor_header (int i + 1)) st
      in (case avg_time (core0_counter g) (core0_total_time g) of
            None \<Rightarrow> None
          | Some avg0 \<Rightarrow>
              (let st = safe_printf (iterations_text 0 (core0_counter g) avg0) st
               in (case avg_time (core1_counter g) (core1_total_time g) of
                     None \<Rightarrow> None
                   | Some avg1 \<Rightarrow>
                       (let st = safe_printf (iterations_text 1 (core1_counter g) avg1) st;
                            st = safe_printf (waiting_text (messages_waiting e i)) st;
                            st = safe_printf (heap_text (free_heap e i)) st
                        in Some st)))))"

function monitor_loop :: "env \<Rightarrow> nat \<Rightarrow> u32 \<times> state \<Rightarrow> (u32 \<times> state) option" where
  "monitor_loop e i ls =
     (if i < 10 then
        (let (last_wake_time, st) = vTaskDelayUntil (fst ls) (ms_to_ticks e 1000) (snd ls)
         in (case monitor_report e i st of
               None \<Rightarrow> None
             | Some st \<Rightarrow> monitor_loop e (Suc i) (last_wake_time, st)))
      else Some ls)"
  by pat_completeness auto
termination
  by (relation "measure (\<lambda>(e, i, ls). 10 - i)") auto

declare monitor_loop.simps [simp del]

definition monitor_task :: "env \<Rightarrow> state \<Rightarrow> state option" where
  "monitor_task e st =
     (let last_wake_time = tick_count e
      in (case monitor_loop e 0 (last_wake_time, st) of
            None \<Rightarrow> None
          | Some (last_wake_time, st) \<Rightarrow> Some (vTaskDelete st)))"

text \<open>
  \<^verbatim>\<open>app_main\<close> prints with \<^verbatim>\<open>printf\<close>, not through the mutex. Its result is its own
  events, or \<open>None\<close> if a division trapped. \<^verbatim>\<open>sizeof(core_message_t)\<close> is 48.
\<close>

definition startup_events :: "event list" where
  "startup_events =
     [VPrintf ''ESP32 Dual-Core Architecture Analysis\<newline>'',
      VPrintf ''=====================================\<newline>'',
      QueueCreate 10 48,
      SemaphoreCreateMutex]"

definition create_events :: "event list" where
  "create_events =
     [VPrintf ''Creating tasks...\<newline>'',
      TaskCreatePinnedToCore ''Core0Task'' 4096 2 0,
      TaskCreatePinnedToCore ''Core1Task'' 4096 2 1,
      TaskCreate ''MonitorTask'' 2048 1]"

definition app_main :: "env \<Rightarrow> event list option" where
  "app_main e =
     (if queue_handle e = None \<or> mutex_handle e = None then
        Some (startup_events @ [VPrintf ''Failed to create synchronization objects!\<newline>''])
      else if \<not> task_created e ''Core0Task'' \<or> \<not> task_created e ''Core1Task'' \<or>
              \<not> task_created e ''MonitorTask'' then
        Some (startup_events @ create_events @ [VPrintf ''Failed to create tasks!\<newline>''])
      else
        (let g = final_counters e;
             ev = startup_events @ create_events @
               [VPrintf ''Tasks created successfully. Monitoring dual-core performance...\<newline>\<newline>'',
                TaskDelay (ms_to_ticks e 12000),
                VPrintf ''\<newline>=== Final Results ===\<newline>'',
                VPrintf (total_text 0 (core0_counter g)),
                VPrintf (total_text 1 (core1_counter g))]
         in (case avg_time (core0_counter g) (core0_total_time g) of
               None \<Rightarrow> None
             | Some avg0 \<Rightarrow>
                 (case avg_time (core1_counter g) (core1_total_time g) of
                    None \<Rightarrow> None
                  | Some avg1 \<Rightarrow>
                      Some (ev @ [VPrintf (average_text 0 avg0), VPrintf (average_text 1 avg1),
                                  VPrintf ''\<newline>Dual-core analysis complete!\<newline>''])))))"

section \<open>Reading a trace\<close>

text \<open>
  The queue sends of a trace, each as sender, message id, timestamp, payload text (what
  \<^verbatim>\<open>%s\<close> would print of \<open>data\<close>), timeout in ticks and outcome; and the texts a trace
  prints.
\<close>

fun send_view :: "event \<Rightarrow> (u32 \<times> u32 \<times> u64 \<times> string \<times> u32 \<times> bool) list" where
  "send_view (QueueSend m ticks r) =
     [(sender_core m, message_id m, timestamp m, c_str (data m), ticks, r)]"
| "send_view ev = []"

definition sends :: "event list \<Rightarrow> (u32 \<times> u32 \<times> u64 \<times> string \<times> u32 \<times> bool) list" where
  "sends evs = concat (map send_view evs)"

fun printed :: "event \<Rightarrow> string list" where
  "printed (VPrintf s) = [s]"
| "printed ev = []"

definition prints :: "event list \<Rightarrow> string list" where
  "prints evs = concat (map printed evs)"

text \<open>
  The spec's average, in its words: 0 when the iteration count is 0, the cumulative time
  divided by the iteration count otherwise.
\<close>

definition spec_average :: "u32 \<Rightarrow> u64 \<Rightarrow> u64" where
  "spec_average iteration_count cumulative_time =
     (if iteration_count = 0 then 0 else cumulative_time div ucast iteration_count)"

section \<open>The console under concurrent writers\<close>

text \<open>
  Modelled from the spec: \<^verbatim>\<open>xSemaphoreTake\<close> and \<^verbatim>\<open>xSemaphoreGive\<close> are FreeRTOS
  code, not in the repository. The spec's sink lock is a mutual-exclusion lock: a caller
  blocks until the lock is available (\<^verbatim>\<open>portMAX_DELAY\<close>: no timeout), and at most one
  task holds it. The three phases of a write are those of \<^verbatim>\<open>safe_printf\<close>.

  Tasks interleave. Each task \<open>t\<close> has the texts it still passes to \<^verbatim>\<open>safe_printf\<close>
  (\<open>todo\<close>), and is either outside \<^verbatim>\<open>vprintf\<close> (\<open>Idle\<close>) or inside it with some bytes
  written and some left (\<open>Printing written left\<close>). One step of task \<open>t\<close>:
  \<^item> \<^verbatim>\<open>xSemaphoreTake(print_mutex, portMAX_DELAY)\<close>: if the mutex is free the task takes
    it and enters \<^verbatim>\<open>vprintf\<close>; if another task holds it, the task stays blocked;
  \<^item> inside \<^verbatim>\<open>vprintf\<close>: one byte goes to the stream (another task may run between
    any two bytes);
  \<^item> \<^verbatim>\<open>xSemaphoreGive\<close> once no byte is left: the mutex is free again and the write
    is logged in \<open>finished\<close>.
  A schedule is the list of tasks in the order the scheduler lets them step.
\<close>

datatype writer = Idle | Printing string string

record console =
  print_mutex :: "nat option"
  writer :: "nat \<Rightarrow> writer"
  todo :: "nat \<Rightarrow> string list"
  stream :: string
  finished :: "(nat \<times> string) list"

definition task_step :: "nat \<Rightarrow> console \<Rightarrow> console" where
  "task_step t c =
     (case writer c t of
        Idle \<Rightarrow>
          (case todo c t of
             [] \<Rightarrow> c
           | s # rest \<Rightarrow>
               (case print_mutex c of
                  None \<Rightarrow>
                    c\<lparr>print_mutex := Some t,
                      writer := (writer c)(t := Printing [] s),
                      todo := (todo c)(t := rest)\<rparr>
                | Some holder \<Rightarrow> c))
      | Printing written left \<Rightarrow>
          (case left of
             [] \<Rightarrow>
               c\<lparr>print_mutex := None,
                 writer := (writer c)(t := Idle),
                 finished := finished c @ [(t, written)]\<rparr>
           | ch # rest \<Rightarrow>
               c\<lparr>stream := stream c @ [ch],
                 writer := (writer c)(t := Printing (written @ [ch]) rest)\<rparr>))"

definition run_tasks :: "nat list \<Rightarrow> console \<Rightarrow> console" where
  "run_tasks schedule c = foldl (\<lambda>c t. task_step t c) c schedule"

definition console_init :: "(nat \<Rightarrow> string list) \<Rightarrow> console" where
  "console_init texts =
     \<lparr>print_mutex = None, writer = (\<lambda>t. Idle), todo = texts, stream = [], finished = []\<rparr>"

text \<open>The bytes the mutex holder has written of its current text.\<close>

definition in_progress :: "console \<Rightarrow> string" where
  "in_progress c =
     (case print_mutex c of
        None \<Rightarrow> []
      | Some t \<Rightarrow> (case writer c t of Idle \<Rightarrow> [] | Printing written left \<Rightarrow> written))"


section \<open>The channel\<close>

text \<open>
  Modelled from the spec: the channel is a FreeRTOS queue, created by
  \<^verbatim>\<open>xQueueCreate(10, sizeof(core_message_t))\<close>; its code is not in the repository. The
  spec: a fixed-capacity ordered buffer, capacity 10; \<open>send\<close> enqueues at the tail if
  space is available within the timeout and otherwise fails and leaves the contents
  unchanged; \<open>receive\<close> dequeues from the head, or returns no message on timeout and
  leaves the contents unchanged; \<open>pending_count\<close> is the occupancy. An operation is
  taken at the moment it completes.
\<close>

definition capacity :: nat where
  "capacity = 10"

definition send :: "'a \<Rightarrow> 'a list \<Rightarrow> bool \<times> 'a list" where
  "send m ch = (if length ch < capacity then (True, ch @ [m]) else (False, ch))"

definition receive :: "'a list \<Rightarrow> 'a option \<times> 'a list" where
  "receive ch = (case ch of [] \<Rightarrow> (None, []) | m # rest \<Rightarrow> (Some m, rest))"

definition pending_count :: "'a list \<Rightarrow> nat" where
  "pending_count ch = length ch"

datatype 'a channel_op = Send 'a | Receive

text \<open>
  A history: the channel, the messages whose send succeeded and the messages received,
  both in the order of the calls.
\<close>

record 'a history =
  channel :: "'a list"
  accepted :: "'a list"
  delivered :: "'a list"

fun channel_step :: "'a history \<Rightarrow> 'a channel_op \<Rightarrow> 'a history" where
  "channel_step h (Send m) =
     (let (ok, ch) = send m (channel h)
      in h\<lparr>channel := ch, accepted := (if ok then accepted h @ [m] else accepted h)\<rparr>)"
| "channel_step h Receive =
     (let (r, ch) = receive (channel h)
      in h\<lparr>channel := ch,
           delivered := (case r of None \<Rightarrow> delivered h | Some m \<Rightarrow> delivered h @ [m])\<rparr>)"

definition channel_run :: "'a channel_op list \<Rightarrow> 'a history" where
  "channel_run ops = foldl channel_step \<lparr>channel = [], accepted = [], delivered = []\<rparr> ops"

section \<open>Example inputs\<close>

text \<open>
  An environment with a 100 Hz tick and a clock that advances 1000 microseconds per read,
  in which every call succeeds; the same with the channel always full, and with
  \<^verbatim>\<open>xQueueCreate\<close> returning \<^verbatim>\<open>NULL\<close>. The counters start at 0.
\<close>

definition globals0 :: globals where
  "globals0 = \<lparr>core0_counter = 0, core1_counter = 0, core0_total_time = 0, core1_total_time = 0\<rparr>"

definition state0 :: state where
  "state0 = \<lparr>core0_counter = 0, core1_counter = 0, core0_total_time = 0, core1_total_time = 0,
              nreads = 0, nsends = 0, nrecvs = 0, events = []\<rparr>"

definition message0 :: core_message_t where
  "message0 = \<lparr>sender_core = 0, message_id = 0, timestamp = 0, data = replicate 32 NUL\<rparr>"

definition env0 :: env where
  "env0 = \<lparr>timer_at = (\<lambda>k. of_nat (1000 * k)),
            send_result = (\<lambda>k. True),
            recv_result = (\<lambda>k. None),
            ms_to_ticks = (\<lambda>ms. of_nat (ms div 10)),
            tick_count = 0,
            counters_at = (\<lambda>k. globals0),
            messages_waiting = (\<lambda>k. 0),
            free_heap = (\<lambda>k. 200000),
            queue_handle = Some 1,
            mutex_handle = Some 2,
            task_created = (\<lambda>name. True),
            final_counters = globals0\<rparr>"

definition env_full :: env where
  "env_full = env0\<lparr>send_result := (\<lambda>k. False)\<rparr>"

definition env_no_queue :: env where
  "env_no_queue = env0\<lparr>queue_handle := None\<rparr>"

text \<open>The final report after both workers ran to completion.\<close>

definition env_done :: env where
  "env_done = env0\<lparr>final_counters :=
     \<lparr>core0_counter = 100, core1_counter = 150, core0_total_time = 21000, core1_total_time = 30150\<rparr>\<rparr>"

text \<open>Two tasks that write through the sink: task 0 two texts, task 1 one.\<close>

definition two_texts :: "nat \<Rightarrow> string list" where
  "two_texts t = (if t = 0 then [''ab'', ''e''] else if t = 1 then [''cd''] else [])"

section \<open>Lemmas: averages\<close>

lemma ucast_32_64_zero: "(ucast (c :: u32) :: u64) = 0 \<longleftrightarrow> c = 0"
proof -
  have "unat c < 2 ^ 64" using unsigned_less [of c, where ?'a = nat] by (simp add: order_less_trans [where y = "2 ^ 32"])
  then show ?thesis
    by (simp add: word_eq_iff_unsigned [where ?'a = nat] unsigned_ucast_eq take_bit_nat_eq_self)
qed
lemma avg_time_eq: "avg_time c t = Some (if c = 0 then 0 else t div ucast c)"
  by (auto simp: avg_time_def udiv64_def word_greater_zero_iff ucast_32_64_zero)

section \<open>Lemmas: one pass of each worker loop\<close>

lemma core0_iter_send:
  assumes "i mod 10 = 0"
  shows "core0_iter e i (message, st) =
    (let m = \<lparr>sender_core = 0, message_id = of_nat i, timestamp = timer_at e (nreads st + 1),
               data = snprintf (data message) 32 (hello_text i)\<rparr>;
         r = send_result e (nsends st)
     in (m, st\<lparr>core0_counter := core0_counter st + 1,
               core0_total_time := core0_total_time st + (timer_at e (nreads st + 2) - timer_at e (nreads st)),
               nreads := nreads st + 3,
               nsends := nsends st + 1,
               events := events st @ [QueueSend m (ms_to_ticks e 100) r] @
                  (if r then [SemaphoreTake, VPrintf (sent_text i), SemaphoreGive] else []) @
                  [TaskDelay (ms_to_ticks e 50)]\<rparr>))"
  using assms
  by (simp add: core0_iter.simps esp_timer_get_time_def xQueueSend_def safe_printf_def
      vTaskDelay_def Let_def)

lemma core0_iter_skip:
  assumes "i mod 10 \<noteq> 0"
  shows "core0_iter e i (message, st) =
     (message, st\<lparr>core0_counter := core0_counter st + 1,
               core0_total_time := core0_total_time st + (timer_at e (nreads st + 1) - timer_at e (nreads st)),
               nreads := nreads st + 2,
               events := events st @ [TaskDelay (ms_to_ticks e 50)]\<rparr>)"
  using assms
  by (simp add: core0_iter.simps esp_timer_get_time_def xQueueSend_def safe_printf_def
      vTaskDelay_def Let_def)

lemma core0_iter_counter:
  "core0_counter (snd (core0_iter e i ms)) = core0_counter (snd ms) + 1"
  by (cases ms; cases "i mod 10 = 0") (simp_all add: core0_iter_send core0_iter_skip Let_def)

lemma core0_iter_other:
  "core1_counter (snd (core0_iter e i ms)) = core1_counter (snd ms) \<and>
   core1_total_time (snd (core0_iter e i ms)) = core1_total_time (snd ms)"
  by (cases ms; cases "i mod 10 = 0") (simp_all add: core0_iter_send core0_iter_skip Let_def)

lemma core0_loop_counter:
  "i \<le> 100 \<Longrightarrow>
   core0_counter (snd (core0_loop e i ms)) = core0_counter (snd ms) + of_nat (100 - i)"
proof (induction e i ms rule: core0_loop.induct)
  case (1 e i ms)
  show ?case
  proof (cases "i < 100")
    case True
    then have "core0_counter (snd (core0_loop e (Suc i) (core0_iter e i ms))) =
        core0_counter (snd (core0_iter e i ms)) + of_nat (100 - Suc i)"
      using "1.IH" by simp
    moreover have "100 - i = Suc (100 - Suc i)" using True by simp
    ultimately show ?thesis
      using True by (subst core0_loop.simps) (simp add: core0_iter_counter)
  next
    case False
    with "1.prems" have "i = 100" by simp
    then show ?thesis by (subst core0_loop.simps) simp
  qed
qed

lemma core1_iter_eq:
  "core1_iter e i (received_message, st) =
    (case recv_result e (nrecvs st) of
       None \<Rightarrow>
         (received_message,
          st\<lparr>core1_counter := core1_counter st + 1,
             core1_total_time := core1_total_time st + (timer_at e (nreads st + 1) - timer_at e (nreads st)),
             nreads := nreads st + 2,
             nrecvs := nrecvs st + 1,
             events := events st @ [QueueReceive (ms_to_ticks e 10) None, TaskDelay (ms_to_ticks e 30)]\<rparr>)
     | Some m \<Rightarrow>
         (m,
          st\<lparr>core1_counter := core1_counter st + 1,
             core1_total_time := core1_total_time st + (timer_at e (nreads st + 2) - timer_at e (nreads st)),
             nreads := nreads st + 3,
             nrecvs := nrecvs st + 1,
             events := events st @
               [QueueReceive (ms_to_ticks e 10) (Some m),
                SemaphoreTake,
                VPrintf (received_text (c_str (data m)) (timer_at e (nreads st + 1) - timestamp m)),
                SemaphoreGive,
                TaskDelay (ms_to_ticks e 30)]\<rparr>))"
  by (simp add: core1_iter.simps esp_timer_get_time_def xQueueReceive_def safe_printf_def
      vTaskDelay_def Let_def split: option.split)

lemma core1_iter_counter:
  "core1_counter (snd (core1_iter e i ms)) = core1_counter (snd ms) + 1"
  by (cases ms) (simp add: core1_iter_eq split: option.split)

lemma core1_loop_counter:
  "i \<le> 150 \<Longrightarrow>
   core1_counter (snd (core1_loop e i ms)) = core1_counter (snd ms) + of_nat (150 - i)"
proof (induction e i ms rule: core1_loop.induct)
  case (1 e i ms)
  show ?case
  proof (cases "i < 150")
    case True
    then have "core1_counter (snd (core1_loop e (Suc i) (core1_iter e i ms))) =
        core1_counter (snd (core1_iter e i ms)) + of_nat (150 - Suc i)"
      using "1.IH" by simp
    moreover have "150 - i = Suc (150 - Suc i)" using True by simp
    ultimately show ?thesis
      using True by (subst core1_loop.simps) (simp add: core1_iter_counter)
  next
    case False
    with "1.prems" have "i = 150" by simp
    then show ?thesis by (subst core1_loop.simps) simp
  qed
qed

section \<open>Lemmas: the payload text\<close>

lemma digit_not_NUL: "n < 10 \<Longrightarrow> ''0123456789'' ! n \<noteq> NUL"
proof -
  assume "n < 10"
  then have "n \<in> {0,1,2,3,4,5,6,7,8,9}" by auto
  then show ?thesis by (auto simp: NUL_def)
qed

lemma NUL_notin_dec: "NUL \<notin> set (dec n)"
proof (induction n rule: dec.induct)
  case (1 n)
  show ?case
  proof (cases "n < 10")
    case True
    then show ?thesis using digit_not_NUL [of n] by (subst dec.simps) auto
  next
    case False
    then have "NUL \<notin> set (dec (n div 10))" using 1 by simp
    moreover have "''0123456789'' ! (n mod 10) \<noteq> NUL" by (rule digit_not_NUL) simp
    ultimately show ?thesis using False by (subst dec.simps) auto
  qed
qed

lemma length_dec_100: "n < 100 \<Longrightarrow> length (dec n) \<le> 2"
proof -
  assume n: "n < 100"
  have small: "length (dec k) = 1" if "k < 10" for k
    using that by (subst dec.simps) simp
  show ?thesis
  proof (cases "n < 10")
    case True
    then show ?thesis by (simp add: small)
  next
    case False
    moreover from n have "n div 10 < 10" by simp
    ultimately show ?thesis by (subst dec.simps) (simp add: small)
  qed
qed

lemma NUL_notin_hello: "NUL \<notin> set (hello_text i)"
  by (simp add: hello_text_def fmt_d_def NUL_notin_dec) (simp add: NUL_def)

lemma length_hello: "i < 100 \<Longrightarrow> length (hello_text i) \<le> 21"
  using length_dec_100 [of i] by (simp add: hello_text_def fmt_d_def)

lemma snprintf_bytes_hello:
  "i < 100 \<Longrightarrow> snprintf_bytes 32 (hello_text i) = hello_text i @ [NUL]"
  using length_hello [of i] by (simp add: snprintf_bytes_def)

lemma length_snprintf_bytes: "length (snprintf_bytes n s) \<le> n"
  by (auto simp: snprintf_bytes_def)

lemma length_snprintf:
  "length (snprintf_bytes n s) \<le> length buf \<Longrightarrow> length (snprintf buf n s) = length buf"
  by (simp add: snprintf_def Let_def)

lemma c_str_snprintf_hello:
  assumes "i < 100"
  shows "c_str (snprintf buf 32 (hello_text i)) = hello_text i"
proof -
  have "takeWhile (\<lambda>c. c \<noteq> NUL) (hello_text i @ NUL # drop (Suc (length (hello_text i))) buf)
      = hello_text i"
    using NUL_notin_hello [of i] by (subst takeWhile_append2) auto
  then show ?thesis
    using assms by (simp add: snprintf_def Let_def snprintf_bytes_hello c_str_def)
qed

section \<open>Lemmas: the monitor report, app\_main and the task counters\<close>

lemma avg_time_spec: "avg_time c t = Some (spec_average c t)"
  by (simp add: avg_time_eq spec_average_def)

lemma monitor_report_eq:
  "monitor_report e i st =
     Some (st\<lparr>events := events st @
       [SemaphoreTake, VPrintf (monitor_header (int i + 1)), SemaphoreGive,
        SemaphoreTake,
        VPrintf (iterations_text 0 (core0_counter (counters_at e i))
          (spec_average (core0_counter (counters_at e i)) (core0_total_time (counters_at e i)))),
        SemaphoreGive,
        SemaphoreTake,
        VPrintf (iterations_text 1 (core1_counter (counters_at e i))
          (spec_average (core1_counter (counters_at e i)) (core1_total_time (counters_at e i)))),
        SemaphoreGive,
        SemaphoreTake, VPrintf (waiting_text (messages_waiting e i)), SemaphoreGive,
        SemaphoreTake, VPrintf (heap_text (free_heap e i)), SemaphoreGive]\<rparr>)"
  by (simp add: monitor_report_def avg_time_spec safe_printf_def Let_def)

lemma app_main_created:
  assumes "queue_handle e \<noteq> None" "mutex_handle e \<noteq> None"
    and "task_created e ''Core0Task''" "task_created e ''Core1Task''"
    and "task_created e ''MonitorTask''"
  shows "app_main e =
     Some (startup_events @ create_events @
       [VPrintf ''Tasks created successfully. Monitoring dual-core performance...\<newline>\<newline>'',
        TaskDelay (ms_to_ticks e 12000),
        VPrintf ''\<newline>=== Final Results ===\<newline>'',
        VPrintf (total_text 0 (core0_counter (final_counters e))),
        VPrintf (total_text 1 (core1_counter (final_counters e))),
        VPrintf (average_text 0
          (spec_average (core0_counter (final_counters e)) (core0_total_time (final_counters e)))),
        VPrintf (average_text 1
          (spec_average (core1_counter (final_counters e)) (core1_total_time (final_counters e)))),
        VPrintf ''\<newline>Dual-core analysis complete!\<newline>''])"
  using assms by (simp add: app_main_def avg_time_spec Let_def)

lemma app_main_total: "app_main e \<noteq> None"
  by (simp add: app_main_def avg_time_spec Let_def)

lemma core0_task_counter:
  "core0_counter (core0_task e m st) = core0_counter st + 100"
  by (simp add: core0_task_def split_def Let_def core0_loop_counter vTaskDelete_def
      safe_printf_def esp_timer_get_time_def)

lemma core1_task_counter:
  "core1_counter (core1_task e m st) = core1_counter st + 150"
  by (simp add: core1_task_def split_def Let_def core1_loop_counter vTaskDelete_def
      safe_printf_def esp_timer_get_time_def)

section \<open>Lemmas: the sends of Worker A\<close>

lemma sends_append: "sends (xs @ ys) = sends xs @ sends ys"
  by (simp add: sends_def)

lemma core0_iter_send_view:
  assumes "i mod 10 = 0" "i < 100"
  shows "sends (events (snd (core0_iter e i (m, st)))) = sends (events st) @
          [(0, of_nat i, timer_at e (nreads st + 1), hello_text i, ms_to_ticks e 100,
            send_result e (nsends st))]"
    and "nreads (snd (core0_iter e i (m, st))) = nreads st + 3"
    and "nsends (snd (core0_iter e i (m, st))) = nsends st + 1"
  using assms c_str_snprintf_hello [of i "data m"]
  by (simp_all add: core0_iter_send Let_def sends_append) (simp add: sends_def)

lemma core0_iter_skip_view:
  assumes "i mod 10 \<noteq> 0"
  shows "sends (events (snd (core0_iter e i (m, st)))) = sends (events st)"
    and "nreads (snd (core0_iter e i (m, st))) = nreads st + 2"
    and "nsends (snd (core0_iter e i (m, st))) = nsends st"
  using assms
  by (simp_all add: core0_iter_skip sends_append) (simp add: sends_def)


lemma next_send_count:
  fixes i :: nat
  assumes "i mod 10 \<noteq> 0"
  shows "(Suc i + 9) div 10 = (i + 9) div 10"
proof -
  define q where "q = i div 10"
  define r where "r = i mod 10"
  have i: "i = 10 * q + r" by (simp add: q_def r_def)
  have r: "0 < r" "r < 10" using assms by (simp_all add: r_def)
  have "(i + 9) div 10 = Suc q"
    by (rule div_nat_eqI) (use i r in simp_all)
  moreover have "(Suc i + 9) div 10 = Suc q"
    by (rule div_nat_eqI) (use i r in simp_all)
  ultimately show ?thesis by simp
qed

lemma core0_iter_inv:
  assumes i: "i < 100"
    and r: "nreads (snd ms) = r0 + 2 * i + (i + 9) div 10"
    and s: "nsends (snd ms) = s0 + (i + 9) div 10"
    and v: "sends (events (snd ms)) = pre @
        map (\<lambda>k. (0, of_nat (10 * k), timer_at e (r0 + 21 * k + 1), hello_text (10 * k),
                  ms_to_ticks e 100, send_result e (s0 + k))) [0..<(i + 9) div 10]"
  shows "nreads (snd (core0_iter e i ms)) = r0 + 2 * Suc i + (Suc i + 9) div 10 \<and>
         nsends (snd (core0_iter e i ms)) = s0 + (Suc i + 9) div 10 \<and>
         sends (events (snd (core0_iter e i ms))) = pre @
           map (\<lambda>k. (0, of_nat (10 * k), timer_at e (r0 + 21 * k + 1), hello_text (10 * k),
                  ms_to_ticks e 100, send_result e (s0 + k))) [0..<(Suc i + 9) div 10]"
proof (cases "i mod 10 = 0")
  case True
  obtain m st where ms: "ms = (m, st)" by (cases ms)
  from True obtain k where k: "i = 10 * k" by auto
  have d1: "(i + 9) div 10 = k" and d2: "(Suc i + 9) div 10 = Suc k"
    using k by simp_all
  have n1: "nreads st = r0 + 21 * k" and n2: "nsends st = s0 + k"
    using r s unfolding ms d1 k by simp_all
  have a: "nreads (snd (core0_iter e i ms)) = nreads st + 3"
    and b: "nsends (snd (core0_iter e i ms)) = nsends st + 1"
    and c: "sends (events (snd (core0_iter e i ms))) = sends (events st) @
          [(0, of_nat i, timer_at e (nreads st + 1), hello_text i, ms_to_ticks e 100,
            send_result e (nsends st))]"
    unfolding ms by (rule core0_iter_send_view [OF True i])+
  have "nreads (snd (core0_iter e i ms)) = r0 + 2 * Suc i + Suc k"
    using a n1 k by simp
  moreover have "nsends (snd (core0_iter e i ms)) = s0 + Suc k"
    using b n2 by simp
  moreover have "sends (events (snd (core0_iter e i ms))) = pre @
           map (\<lambda>k. (0, of_nat (10 * k), timer_at e (r0 + 21 * k + 1), hello_text (10 * k),
                  ms_to_ticks e 100, send_result e (s0 + k))) [0..<Suc k]"
    using v c n1 n2 d1 k by (simp add: ms)
  ultimately show ?thesis unfolding d2 by simp
next
  case False
  obtain m st where ms: "ms = (m, st)" by (cases ms)
  have d: "(Suc i + 9) div 10 = (i + 9) div 10"
    using False by (rule next_send_count)
  show ?thesis
    using r s v unfolding ms d core0_iter_skip_view [OF False]
    by simp
qed

lemma core0_loop_inv:
  assumes "i \<le> 100"
    and "nreads (snd ms) = r0 + 2 * i + (i + 9) div 10"
    and "nsends (snd ms) = s0 + (i + 9) div 10"
    and "sends (events (snd ms)) = pre @
        map (\<lambda>k. (0, of_nat (10 * k), timer_at e (r0 + 21 * k + 1), hello_text (10 * k),
                  ms_to_ticks e 100, send_result e (s0 + k))) [0..<(i + 9) div 10]"
  shows "nreads (snd (core0_loop e i ms)) = r0 + 210 \<and>
         nsends (snd (core0_loop e i ms)) = s0 + 10 \<and>
         sends (events (snd (core0_loop e i ms))) = pre @
           map (\<lambda>k. (0, of_nat (10 * k), timer_at e (r0 + 21 * k + 1), hello_text (10 * k),
                  ms_to_ticks e 100, send_result e (s0 + k))) [0..<10]"
  using assms
proof (induction e i ms rule: core0_loop.induct)
  case (1 e i ms)
  show ?case
  proof (cases "i < 100")
    case True
    have step: "nreads (snd (core0_iter e i ms)) = r0 + 2 * Suc i + (Suc i + 9) div 10 \<and>
         nsends (snd (core0_iter e i ms)) = s0 + (Suc i + 9) div 10 \<and>
         sends (events (snd (core0_iter e i ms))) = pre @
           map (\<lambda>k. (0, of_nat (10 * k), timer_at e (r0 + 21 * k + 1), hello_text (10 * k),
                  ms_to_ticks e 100, send_result e (s0 + k))) [0..<(Suc i + 9) div 10]"
      using True "1.prems"(2,3,4) by (rule core0_iter_inv)
    have "Suc i \<le> 100" using True by simp
    then have "nreads (snd (core0_loop e (Suc i) (core0_iter e i ms))) = r0 + 210 \<and>
         nsends (snd (core0_loop e (Suc i) (core0_iter e i ms))) = s0 + 10 \<and>
         sends (events (snd (core0_loop e (Suc i) (core0_iter e i ms)))) = pre @
           map (\<lambda>k. (0, of_nat (10 * k), timer_at e (r0 + 21 * k + 1), hello_text (10 * k),
                  ms_to_ticks e 100, send_result e (s0 + k))) [0..<10]"
      using "1.IH" [OF True] step by blast
    moreover have "core0_loop e i ms = core0_loop e (Suc i) (core0_iter e i ms)"
      using True by (subst core0_loop.simps) simp
    ultimately show ?thesis by (simp only:)
  next
    case False
    with "1.prems"(1) have "i = 100" by simp
    then have "core0_loop e i ms = ms" by (subst core0_loop.simps) simp
    then show ?thesis using "1.prems"(2,3,4) \<open>i = 100\<close> by simp
  qed
qed

lemma core0_task_events:
  "events (core0_task e message st) =
     events (snd (core0_loop e 0 (message,
        safe_printf ''Core 0 Task Started (PRO_CPU)\<newline>'' (snd (esp_timer_get_time e st))))) @
     [SemaphoreTake,
      VPrintf (completed_text 0
        ((timer_at e (nreads (snd (core0_loop e 0 (message,
             safe_printf ''Core 0 Task Started (PRO_CPU)\<newline>'' (snd (esp_timer_get_time e st)))))) -
          timer_at e (nreads st)) div 1000)),
      SemaphoreGive, TaskDelete]"
  by (simp add: core0_task_def split_def Let_def vTaskDelete_def safe_printf_def
      esp_timer_get_time_def)

lemma core0_task_sends:
  "sends (events (core0_task e message st)) = sends (events st) @
     map (\<lambda>k. (0, of_nat (10 * k), timer_at e (nreads st + 21 * k + 2), hello_text (10 * k),
                ms_to_ticks e 100, send_result e (nsends st + k))) [0..<10]"
proof -
  define st1 where "st1 = safe_printf ''Core 0 Task Started (PRO_CPU)\<newline>'' (snd (esp_timer_get_time e st))"
  have a: "nreads (snd (message, st1)) = (nreads st + 1) + 2 * 0 + (0 + 9) div 10"
    and b: "nsends (snd (message, st1)) = nsends st + (0 + 9) div 10"
    and c: "sends (events (snd (message, st1))) = sends (events st) @
        map (\<lambda>k. (0, of_nat (10 * k), timer_at e ((nreads st + 1) + 21 * k + 1), hello_text (10 * k),
                  ms_to_ticks e 100, send_result e (nsends st + k))) [0..<(0 + 9) div 10]"
    by (simp_all add: st1_def safe_printf_def esp_timer_get_time_def sends_append) (simp add: sends_def)
  have "sends (events (snd (core0_loop e 0 (message, st1)))) = sends (events st) @
           map (\<lambda>k. (0, of_nat (10 * k), timer_at e ((nreads st + 1) + 21 * k + 1), hello_text (10 * k),
                  ms_to_ticks e 100, send_result e (nsends st + k))) [0..<10]"
    using core0_loop_inv [OF _ a b c] by simp
  moreover have "sends [SemaphoreTake, VPrintf x, SemaphoreGive, TaskDelete] = []" for x
    by (simp add: sends_def)
  moreover have "nreads st + 1 + 21 * k + 1 = nreads st + 21 * k + 2" for k by simp
  ultimately show ?thesis
    unfolding core0_task_events sends_append st1_def [symmetric] by simp
qed

lemma core0_task_nsends: "nsends (core0_task e message st) = nsends st + 10"
proof -
  define st1 where "st1 = safe_printf ''Core 0 Task Started (PRO_CPU)\<newline>'' (snd (esp_timer_get_time e st))"
  have a: "nreads (snd (message, st1)) = (nreads st + 1) + 2 * 0 + (0 + 9) div 10"
    and b: "nsends (snd (message, st1)) = nsends st + (0 + 9) div 10"
    and c: "sends (events (snd (message, st1))) = sends (events st) @
        map (\<lambda>k. (0, of_nat (10 * k), timer_at e ((nreads st + 1) + 21 * k + 1), hello_text (10 * k),
                  ms_to_ticks e 100, send_result e (nsends st + k))) [0..<(0 + 9) div 10]"
    by (simp_all add: st1_def safe_printf_def esp_timer_get_time_def sends_append) (simp add: sends_def)
  have "nsends (snd (core0_loop e 0 (message, st1))) = nsends st + 10"
    using core0_loop_inv [OF _ a b c] by simp
  then show ?thesis
    by (simp add: core0_task_def split_def Let_def vTaskDelete_def safe_printf_def
        esp_timer_get_time_def st1_def)
qed

lemma upt_10: "[0..<10] = [0, 1, 2, 3, 4, 5, 6, 7, 8, 9 :: nat]"
  by code_simp

section \<open>Lemmas: the monitor loop\<close>

lemma monitor_loop_unfold:
  "i < 10 \<Longrightarrow> monitor_loop e i (lw, st) =
     (case monitor_report e i (st\<lparr>events := events st @ [TaskDelayUntil lw (ms_to_ticks e 1000)]\<rparr>) of
        None \<Rightarrow> None
      | Some st' \<Rightarrow> monitor_loop e (Suc i) (lw + ms_to_ticks e 1000, st'))"
  by (subst monitor_loop.simps) (simp add: vTaskDelayUntil_def)

lemma monitor_loop_eq:
  assumes "n = 10 - i" "i \<le> 10"
  shows "monitor_loop e i (t0 + of_nat i * ms_to_ticks e 1000, st) =
     Some (t0 + 10 * ms_to_ticks e 1000,
           st\<lparr>events := events st @
             concat (map (\<lambda>k.
               [TaskDelayUntil (t0 + of_nat k * ms_to_ticks e 1000) (ms_to_ticks e 1000),
                SemaphoreTake, VPrintf (monitor_header (int k + 1)), SemaphoreGive,
                SemaphoreTake,
                VPrintf (iterations_text 0 (core0_counter (counters_at e k))
                  (spec_average (core0_counter (counters_at e k)) (core0_total_time (counters_at e k)))),
                SemaphoreGive,
                SemaphoreTake,
                VPrintf (iterations_text 1 (core1_counter (counters_at e k))
                  (spec_average (core1_counter (counters_at e k)) (core1_total_time (counters_at e k)))),
                SemaphoreGive,
                SemaphoreTake, VPrintf (waiting_text (messages_waiting e k)), SemaphoreGive,
                SemaphoreTake, VPrintf (heap_text (free_heap e k)), SemaphoreGive]) [i..<10])\<rparr>)"
  using assms
proof (induction n arbitrary: i st)
  case 0
  then have "i = 10" by simp
  then show ?case by (subst monitor_loop.simps) simp
next
  case (Suc n)
  then have i: "i < 10" and n: "n = 10 - Suc i" and le: "Suc i \<le> 10" by simp_all
  have w: "t0 + of_nat i * ms_to_ticks e 1000 + ms_to_ticks e 1000 =
      t0 + of_nat (Suc i) * ms_to_ticks e 1000"
    by (simp add: algebra_simps)
  have u: "[i..<10] = i # [Suc i..<10]" using i by (simp add: upt_conv_Cons)
  define st1 where "st1 = st\<lparr>events := events st @
       [TaskDelayUntil (t0 + of_nat i * ms_to_ticks e 1000) (ms_to_ticks e 1000),
        SemaphoreTake, VPrintf (monitor_header (int i + 1)), SemaphoreGive,
        SemaphoreTake,
        VPrintf (iterations_text 0 (core0_counter (counters_at e i))
          (spec_average (core0_counter (counters_at e i)) (core0_total_time (counters_at e i)))),
        SemaphoreGive,
        SemaphoreTake,
        VPrintf (iterations_text 1 (core1_counter (counters_at e i))
          (spec_average (core1_counter (counters_at e i)) (core1_total_time (counters_at e i)))),
        SemaphoreGive,
        SemaphoreTake, VPrintf (waiting_text (messages_waiting e i)), SemaphoreGive,
        SemaphoreTake, VPrintf (heap_text (free_heap e i)), SemaphoreGive]\<rparr>"
  have step: "monitor_loop e i (t0 + of_nat i * ms_to_ticks e 1000, st) =
      monitor_loop e (Suc i) (t0 + of_nat (Suc i) * ms_to_ticks e 1000, st1)"
    unfolding monitor_loop_unfold [OF i] monitor_report_eq w st1_def by simp
  show ?case
    unfolding step Suc.IH [OF n le] u by (simp add: st1_def)
qed

section \<open>Lemmas: the channel\<close>

lemma channel_step_inv:
  assumes "length (channel h) \<le> capacity" "accepted h = delivered h @ channel h"
  shows "length (channel (channel_step h x)) \<le> capacity \<and>
         accepted (channel_step h x) = delivered (channel_step h x) @ channel (channel_step h x)"
proof (cases x)
  case (Send m)
  then show ?thesis using assms by (simp add: send_def)
next
  case Receive
  then show ?thesis using assms by (cases "channel h") (simp_all add: receive_def)
qed

lemma channel_run_inv:
  "length (channel (channel_run ops)) \<le> capacity \<and>
   accepted (channel_run ops) = delivered (channel_run ops) @ channel (channel_run ops)"
proof (induction ops rule: rev_induct)
  case Nil
  show ?case by (simp add: channel_run_def)
next
  case (snoc x xs)
  have "channel_run (xs @ [x]) = channel_step (channel_run xs) x"
    by (simp add: channel_run_def)
  then show ?case using channel_step_inv snoc.IH by metis
qed

section \<open>Lemmas: the console under any schedule\<close>







section \<open>The models on concrete runs\<close>

text \<open>
  Task 1 asks for the mutex while task 0 holds it and stays blocked until task 0 has
  written \<^verbatim>\<open>ab\<close> and given the mutex back; only then its \<^verbatim>\<open>c\<close> reaches the stream.
\<close>

lemma console_example:
  "stream (run_tasks [0, 1, 0, 1, 0, 1, 0, 1, 1] (console_init two_texts)) = ''abc'' \<and>
   finished (run_tasks [0, 1, 0, 1, 0, 1, 0, 1, 1] (console_init two_texts)) = [(0, ''ab'')] \<and>
   in_progress (run_tasks [0, 1, 0, 1, 0, 1, 0, 1, 1] (console_init two_texts)) = ''c''"
  by (simp add: run_tasks_def console_init_def two_texts_def task_step_def in_progress_def)

text \<open>The eleventh send finds the channel full and is refused; after a receive a send fits.\<close>

lemma channel_example:
  "channel_run (map Send [1, 2, 3, 4, 5, 6, 7, 8, 9, 10, 11 :: nat] @ [Receive, Send 12]) =
     \<lparr>channel = [2, 3, 4, 5, 6, 7, 8, 9, 10, 12],
      accepted = [1, 2, 3, 4, 5, 6, 7, 8, 9, 10, 12],
      delivered = [1]\<rparr>"
  by (simp add: channel_run_def send_def receive_def capacity_def)

section \<open>The claims\<close>

text \<open>
  C3. Every computation of a worker's average iteration time, in each monitor cycle and in
  the final report, gives 0 when the worker's iteration count is 0 and the cumulative
  time divided by the iteration count otherwise: the division never has a zero divisor
  (\<open>avg_time\<close>, \<open>monitor_report\<close> and \<open>app_main\<close> never return \<open>None\<close>), and the
  lines printed carry exactly the spec's average.
\<close>

theorem average_is_zero_or_quotient:
  "avg_time c t = Some (spec_average c t) \<and>
   monitor_report e i st =
     Some (st\<lparr>events := events st @
       [SemaphoreTake, VPrintf (monitor_header (int i + 1)), SemaphoreGive,
        SemaphoreTake,
        VPrintf (iterations_text 0 (core0_counter (counters_at e i))
          (spec_average (core0_counter (counters_at e i)) (core0_total_time (counters_at e i)))),
        SemaphoreGive,
        SemaphoreTake,
        VPrintf (iterations_text 1 (core1_counter (counters_at e i))
          (spec_average (core1_counter (counters_at e i)) (core1_total_time (counters_at e i)))),
        SemaphoreGive,
        SemaphoreTake, VPrintf (waiting_text (messages_waiting e i)), SemaphoreGive,
        SemaphoreTake, VPrintf (heap_text (free_heap e i)), SemaphoreGive]\<rparr>) \<and>
   app_main e \<noteq> None \<and>
   (queue_handle e \<noteq> None \<and> mutex_handle e \<noteq> None \<and> task_created e ''Core0Task'' \<and>
    task_created e ''Core1Task'' \<and> task_created e ''MonitorTask'' \<longrightarrow>
    app_main e =
      Some (startup_events @ create_events @
        [VPrintf ''Tasks created successfully. Monitoring dual-core performance...\<newline>\<newline>'',
         TaskDelay (ms_to_ticks e 12000),
         VPrintf ''\<newline>=== Final Results ===\<newline>'',
         VPrintf (total_text 0 (core0_counter (final_counters e))),
         VPrintf (total_text 1 (core1_counter (final_counters e))),
         VPrintf (average_text 0
           (spec_average (core0_counter (final_counters e)) (core0_total_time (final_counters e)))),
         VPrintf (average_text 1
           (spec_average (core1_counter (final_counters e)) (core1_total_time (final_counters e)))),
         VPrintf ''\<newline>Dual-core analysis complete!\<newline>'']))"
  using monitor_report_eq [of e i st] app_main_created [of e]
  by (simp add: avg_time_spec app_main_total)

text \<open>The final report for 100 iterations in 21000 microseconds and 150 in 30150.\<close>

theorem average_is_zero_or_quotient_witness:
  "avg_time 0 21000 = Some 0 \<and> avg_time 100 21000 = Some 210 \<and>
   prints (the (app_main env_done)) =
     [''ESP32 Dual-Core Architecture Analysis\<newline>'',
      ''=====================================\<newline>'',
      ''Creating tasks...\<newline>'',
      ''Tasks created successfully. Monitoring dual-core performance...\<newline>\<newline>'',
      ''\<newline>=== Final Results ===\<newline>'',
      ''Core 0 total iterations: 100\<newline>'',
      ''Core 1 total iterations: 150\<newline>'',
      ''Core 0 average time per iteration: 210 '' @ micro @ ''s\<newline>'',
      ''Core 1 average time per iteration: 201 '' @ micro @ ''s\<newline>'',
      ''\<newline>Dual-core analysis complete!\<newline>'']"
proof -
  have c: "queue_handle env_done \<noteq> None \<and> mutex_handle env_done \<noteq> None \<and>
      task_created env_done ''Core0Task'' \<and> task_created env_done ''Core1Task'' \<and>
      task_created env_done ''MonitorTask''"
    by (simp add: env_done_def env0_def)
  have d: "dec 100 = ''100''" "dec 150 = ''150''" "dec 210 = ''210''" "dec 201 = ''201''"
       "dec 0 = ''0''" "dec (Suc 0) = ''1''"
    by code_simp+
  have f: "final_counters env_done =
      \<lparr>core0_counter = 100, core1_counter = 150, core0_total_time = 21000, core1_total_time = 30150\<rparr>"
    by (simp add: env_done_def)
  have s: "spec_average 0 21000 = 0" "spec_average 100 21000 = 210" "spec_average 150 30150 = 201"
    by (simp_all add: spec_average_def)
  from average_is_zero_or_quotient [of 0 21000 env_done 0 state0] c
  have 1: "avg_time 0 21000 = Some 0" by (simp add: s)
  from average_is_zero_or_quotient [of 100 21000 env_done 0 state0] c
  have 2: "avg_time 100 21000 = Some 210"
    and 3: "app_main env_done = Some (startup_events @ create_events @
        [VPrintf ''Tasks created successfully. Monitoring dual-core performance...\<newline>\<newline>'',
         TaskDelay (ms_to_ticks env_done 12000),
         VPrintf ''\<newline>=== Final Results ===\<newline>'',
         VPrintf (total_text 0 (core0_counter (final_counters env_done))),
         VPrintf (total_text 1 (core1_counter (final_counters env_done))),
         VPrintf (average_text 0
           (spec_average (core0_counter (final_counters env_done)) (core0_total_time (final_counters env_done)))),
         VPrintf (average_text 1
           (spec_average (core1_counter (final_counters env_done)) (core1_total_time (final_counters env_done)))),
         VPrintf ''\<newline>Dual-core analysis complete!\<newline>''])"
    by (simp_all add: s)
  show ?thesis
    unfolding 3 f
    by (simp add: 1 2 s d prints_def startup_events_def create_events_def total_text_def
        average_text_def)
qed



text \<open>
  C9. If the channel or the sink's mutex cannot be created (\<^verbatim>\<open>xQueueCreate\<close> or
  \<^verbatim>\<open>xSemaphoreCreateMutex\<close> returns \<^verbatim>\<open>NULL\<close>), \<open>app_main\<close> reports the failure and
  returns: its events are the banner, the two creation calls and the failure message, and
  no task is created, so no worker ever runs.
\<close>
theorem creation_failure_starts_no_task:
  assumes "queue_handle e = None \<or> mutex_handle e = None"
  shows "app_main e =
     Some [VPrintf ''ESP32 Dual-Core Architecture Analysis\<newline>'',
           VPrintf ''=====================================\<newline>'',
           QueueCreate 10 48,
           SemaphoreCreateMutex,
           VPrintf ''Failed to create synchronization objects!\<newline>'']"
  using assms by (auto simp: app_main_def startup_events_def)

theorem creation_failure_starts_no_task_witness:
  "queue_handle env_no_queue = None \<and>
   app_main env_no_queue =
     Some [VPrintf ''ESP32 Dual-Core Architecture Analysis\<newline>'',
           VPrintf ''=====================================\<newline>'',
           QueueCreate 10 48,
           SemaphoreCreateMutex,
           VPrintf ''Failed to create synchronization objects!\<newline>'']"
proof -
  have h: "queue_handle env_no_queue = None \<or> mutex_handle env_no_queue = None"
    by (simp add: env_no_queue_def)
  show ?thesis
    using creation_failure_starts_no_task [OF h] by (simp add: env_no_queue_def)
qed


text \<open>
  C5. Each pass of a worker's loop adds exactly 1 to the worker's own iteration counter
  and adds the pass's elapsed time to its own cumulative-time counter, whatever the
  outcome of the send or the receive (the environment \<open>e\<close> is arbitrary). So Worker A's
  task raises its counter by 100 and Worker B's by 150: from the initial 0 they end at
  100 and 150.
\<close>
theorem counters_advance_once_per_iteration:
  "core0_counter (snd (core0_iter e i (message, st))) = core0_counter st + 1 \<and>
   core0_total_time (snd (core0_iter e i (message, st))) =
     core0_total_time st +
     (timer_at e (nreads st + (if i mod 10 = 0 then 2 else 1)) - timer_at e (nreads st)) \<and>
   core1_counter (snd (core1_iter e i (received_message, st))) = core1_counter st + 1 \<and>
   core1_total_time (snd (core1_iter e i (received_message, st))) =
     core1_total_time st +
     (timer_at e (nreads st + (case recv_result e (nrecvs st) of Some m \<Rightarrow> 2 | None \<Rightarrow> 1)) -
      timer_at e (nreads st)) \<and>
   core0_counter (core0_task e message st) = core0_counter st + 100 \<and>
   core1_counter (core1_task e received_message st) = core1_counter st + 150 \<and>
   core0_counter (core0_task e message state0) = 100 \<and>
   core1_counter (core1_task e received_message state0) = 150"
proof -
  have a: "core0_total_time (snd (core0_iter e i (message, st))) =
     core0_total_time st +
     (timer_at e (nreads st + (if i mod 10 = 0 then 2 else 1)) - timer_at e (nreads st))"
    by (cases "i mod 10 = 0") (simp_all add: core0_iter_send core0_iter_skip Let_def)
  have b: "core1_total_time (snd (core1_iter e i (received_message, st))) =
     core1_total_time st +
     (timer_at e (nreads st + (case recv_result e (nrecvs st) of Some m \<Rightarrow> 2 | None \<Rightarrow> 1)) -
      timer_at e (nreads st))"
    by (simp add: core1_iter_eq split: option.split)
  have c: "core0_counter state0 = 0" "core1_counter state0 = 0"
    by (simp_all add: state0_def)
  show ?thesis
    using a b by (simp add: core0_iter_counter core1_iter_counter core0_task_counter core1_task_counter c)
qed

text \<open>
  C1, as stated, fails: with the channel full, the first pass of Worker A makes one send
  that times out and writes nothing through the sink.
\<close>
theorem dropped_send_is_not_logged:
  "sends (events (snd (core0_iter env_full 0 (message0, state0)))) =
     [(0, 0, 1000, ''Hello from Core 0 #0'', 10, False)] \<and>
   prints (events (snd (core0_iter env_full 0 (message0, state0)))) = []"
proof -
  have "c_str (snprintf (data message0) 32 (hello_text 0)) = hello_text 0"
    by (rule c_str_snprintf_hello) simp
  moreover have "hello_text 0 = ''Hello from Core 0 #0''"
    by (simp add: hello_text_def fmt_d_def dec.simps)
  ultimately show ?thesis
    by (simp add: core0_iter_send Let_def sends_def prints_def env_full_def env0_def state0_def)
qed

text \<open>
  C1, amended. A pass of Worker A whose index is a multiple of 10 makes exactly one send,
  with no retry. It writes the line \<^verbatim>\<open>Core 0: Sent message i\<close> through the sink when
  the send succeeded and writes nothing when it timed out; either way the pass goes on
  to update the counters and to delay.
\<close>

theorem send_logged_only_on_success:
  assumes "i mod 10 = 0"
  shows "events (snd (core0_iter e i (message, st))) =
     events st @
     [QueueSend \<lparr>sender_core = 0, message_id = of_nat i, timestamp = timer_at e (nreads st + 1),
                 data = snprintf (data message) 32 (hello_text i)\<rparr>
        (ms_to_ticks e 100) (send_result e (nsends st))] @
     (if send_result e (nsends st)
      then [SemaphoreTake, VPrintf (''Core 0: Sent message '' @ fmt_d (int i) @ ''\<newline>''), SemaphoreGive]
      else []) @
     [TaskDelay (ms_to_ticks e 50)] \<and>
   nsends (snd (core0_iter e i (message, st))) = nsends st + 1 \<and>
   core0_counter (snd (core0_iter e i (message, st))) = core0_counter st + 1"
  using assms by (simp add: core0_iter_send Let_def sent_text_def)

theorem send_logged_only_on_success_witness:
  "(0::nat) mod 10 = 0 \<and>
   prints (events (snd (core0_iter env0 0 (message0, state0)))) = [''Core 0: Sent message 0\<newline>''] \<and>
   nsends (snd (core0_iter env0 0 (message0, state0))) = 1 \<and>
   core0_counter (snd (core0_iter env0 0 (message0, state0))) = 1"
proof -
  have h: "(0::nat) mod 10 = 0" by simp
  have d: "fmt_d 0 = ''0''" by (simp add: fmt_d_def dec.simps)
  show ?thesis
    using send_logged_only_on_success [OF h, of env0 message0 state0]
    by (simp add: prints_def env0_def state0_def d)
qed

text \<open>
  C2. A pass of Worker A's loop with index \<open>i\<close> makes a send exactly when \<open>i\<close> is a
  multiple of 10, with the timestamp just read from the clock (the pass's second read)
  and the timeout \<^verbatim>\<open>pdMS_TO_TICKS(100)\<close>. Over the 100 passes of the task exactly 10
  sends are made, the \<open>k\<close>-th at index \<open>10 k\<close>: message ids 0, 10, ..., 90, each
  stamped with the clock value read for it and carrying the text
  \<^verbatim>\<open>Hello from Core 0 #<id>\<close>.
\<close>

theorem worker_a_sends_on_multiples_of_ten:
  "sends (events (snd (core0_iter e i (message, st)))) =
     sends (events st) @
     (if i mod 10 = 0
      then [(0, of_nat i, timer_at e (nreads st + 1),
             c_str (snprintf (data message) 32 (hello_text i)), ms_to_ticks e 100,
             send_result e (nsends st))]
      else []) \<and>
   sends (events (core0_task e message st)) =
     sends (events st) @
     map (\<lambda>k. (0, of_nat (10 * k), timer_at e (nreads st + 21 * k + 2), hello_text (10 * k),
               ms_to_ticks e 100, send_result e (nsends st + k))) [0..<10] \<and>
   nsends (core0_task e message st) = nsends st + 10 \<and>
   map (\<lambda>v. fst (snd v)) (sends (events (core0_task e message state0))) =
     [0, 10, 20, 30, 40, 50, 60, 70, 80, 90]"
proof -
  have "sends (events (snd (core0_iter e i (message, st)))) =
     sends (events st) @
     (if i mod 10 = 0
      then [(0, of_nat i, timer_at e (nreads st + 1),
             c_str (snprintf (data message) 32 (hello_text i)), ms_to_ticks e 100,
             send_result e (nsends st))]
      else [])"
    by (cases "i mod 10 = 0")
       (simp_all add: core0_iter_send core0_iter_skip Let_def sends_append, simp_all add: sends_def)
  moreover have "map (\<lambda>v. fst (snd v)) (sends (events (core0_task e message state0))) =
     [0, 10, 20, 30, 40, 50, 60, 70, 80, 90]"
    unfolding core0_task_sends upt_10 by (simp add: state0_def sends_def)
  ultimately show ?thesis
    by (simp only: core0_task_sends core0_task_nsends simp_thms)
qed

text \<open>
  C7. The monitor task makes exactly 10 cycles and then deletes itself. Cycle \<open>k\<close>
  (0..9) first waits in \<^verbatim>\<open>vTaskDelayUntil\<close> for the absolute deadline
  \<open>tick_count + (k + 1) * pdMS_TO_TICKS(1000)\<close>, whatever time the previous report took,
  and then writes its five lines. Nothing follows the tenth report but the task's
  deletion, for every value the workers' counters may have in any cycle (so also while
  Worker A or Worker B is still running).
\<close>

theorem monitor_runs_ten_cycles:
  "monitor_task e st =
     Some (st\<lparr>events := events st @
       concat (map (\<lambda>k.
         [TaskDelayUntil (tick_count e + of_nat k * ms_to_ticks e 1000) (ms_to_ticks e 1000),
          SemaphoreTake, VPrintf (monitor_header (int k + 1)), SemaphoreGive,
          SemaphoreTake,
          VPrintf (iterations_text 0 (core0_counter (counters_at e k))
            (spec_average (core0_counter (counters_at e k)) (core0_total_time (counters_at e k)))),
          SemaphoreGive,
          SemaphoreTake,
          VPrintf (iterations_text 1 (core1_counter (counters_at e k))
            (spec_average (core1_counter (counters_at e k)) (core1_total_time (counters_at e k)))),
          SemaphoreGive,
          SemaphoreTake, VPrintf (waiting_text (messages_waiting e k)), SemaphoreGive,
          SemaphoreTake, VPrintf (heap_text (free_heap e k)), SemaphoreGive]) [0..<10]) @
       [TaskDelete]\<rparr>)"
  using monitor_loop_eq [of 10 0 e "tick_count e" st]
  by (simp add: monitor_task_def vTaskDelete_def)

text \<open>
  C10. \<^verbatim>\<open>snprintf\<close> with size 32 stores at most 32 bytes whatever the text. For every
  sending index below 100 the text \<^verbatim>\<open>Hello from Core 0 #i\<close> with its NUL is at most 22
  bytes and is stored whole; the \<open>data\<close> array stays 32 bytes long, its bytes behind the
  NUL keep their value, and the other three fields of the message hold what the pass
  assigned to them.
\<close>



theorem payload_fits_data_field:
  assumes "length (data message) = 32" and "i mod 10 = 0" and "i < 100"
  shows "length (snprintf_bytes 32 s) \<le> 32 \<and>
     snprintf_bytes 32 (hello_text i) = hello_text i @ [NUL] \<and>
     length (hello_text i @ [NUL]) \<le> 22 \<and>
     length (data (fst (core0_iter e i (message, st)))) = 32 \<and>
     data (fst (core0_iter e i (message, st))) =
       hello_text i @ [NUL] @ drop (length (hello_text i) + 1) (data message) \<and>
     sender_core (fst (core0_iter e i (message, st))) = 0 \<and>
     message_id (fst (core0_iter e i (message, st))) = of_nat i \<and>
     timestamp (fst (core0_iter e i (message, st))) = timer_at e (nreads st + 1)"
proof -
  have "length (hello_text i) \<le> 21" using assms(3) by (rule length_hello)
  then show ?thesis
    using assms
    by (simp add: core0_iter_send Let_def snprintf_def snprintf_bytes_hello length_snprintf_bytes)
qed

theorem payload_fits_data_field_witness:
  "length (data message0) = 32 \<and> (90::nat) mod 10 = 0 \<and> (90::nat) < 100 \<and>
   data (fst (core0_iter env0 90 (message0, state0))) =
     ''Hello from Core 0 #90'' @ replicate 11 NUL \<and>
   length (data (fst (core0_iter env0 90 (message0, state0)))) = 32"
proof -
  have a: "length (data message0) = 32" by (simp add: message0_def)
  have b: "(90::nat) mod 10 = 0" and c: "(90::nat) < 100" by simp_all
  have h: "hello_text 90 = ''Hello from Core 0 #90''"
    by (simp add: hello_text_def fmt_d_def) code_simp
  have r: "replicate 11 NUL = NUL # replicate 10 NUL"
    by (simp add: numeral_eq_Suc)
  have d: "drop 22 (replicate 32 NUL) = replicate 10 NUL" by simp
  show ?thesis
    using payload_fits_data_field [OF a b c, of "[]" env0 state0]
    by (simp add: h message0_def r)
qed

text \<open>
  C6. For every sequence of sends and receives on the channel, starting empty: the
  occupancy never exceeds 10; it equals the number of accepted messages minus the number
  of delivered ones, which is therefore never negative; and the accepted messages are
  the delivered ones followed by the channel's contents, so messages leave in the order
  they entered.
\<close>

theorem channel_occupancy_and_fifo:
  "pending_count (channel (channel_run ops)) \<le> 10 \<and>
   int (length (accepted (channel_run ops))) - int (length (delivered (channel_run ops))) =
     int (pending_count (channel (channel_run ops))) \<and>
   0 \<le> int (length (accepted (channel_run ops))) - int (length (delivered (channel_run ops))) \<and>
   int (length (accepted (channel_run ops))) - int (length (delivered (channel_run ops))) \<le> 10 \<and>
   accepted (channel_run ops) = delivered (channel_run ops) @ channel (channel_run ops)"
proof -
  have a: "length (channel (channel_run ops)) \<le> 10"
    and b: "accepted (channel_run ops) = delivered (channel_run ops) @ channel (channel_run ops)"
    using channel_run_inv [of ops] by (simp_all add: capacity_def)
  have "length (accepted (channel_run ops)) =
      length (delivered (channel_run ops)) + length (channel (channel_run ops))"
    by (subst b) simp
  then show ?thesis using a b by (simp add: pending_count_def)
qed


end
